theory Spec2Isabelle
  imports Complex_Main
begin

section \<open>Bill extraction: from OCR tokens to line items\<close>

text \<open>
  A shallow embedding of \<^verbatim>\<open>Hackathon/extractor.py\<close> and \<^verbatim>\<open>Hackathon/app.py\<close>.

  Conventions of the model:
  \<^item> a Python \<^verbatim>\<open>str\<close> is a \<open>string\<close> of ASCII characters; \<^verbatim>\<open>lower\<close>,
    \<^verbatim>\<open>strip\<close>, \<^verbatim>\<open>split\<close> and \<^verbatim>\<open>isdigit\<close> are modelled on ASCII;
  \<^item> a Python \<^verbatim>\<open>int\<close> is an \<open>int\<close>;
  \<^item> a Python \<^verbatim>\<open>float\<close> is the rational number it stands for (\<open>rat\<close>): the
    rounding of IEEE doubles, infinities and NaN are outside the model;
  \<^item> \<^verbatim>\<open>None\<close> is \<open>None\<close> of an option type;
  \<^item> an exception raised by a collaborator (image download, OCR) is \<open>Inl msg\<close>,
    where \<open>msg\<close> is the text of the exception.
\<close>

subsection \<open>Python string primitives\<close>

definition is_space :: "char \<Rightarrow> bool" where
  "is_space c = (c \<in> set [CHR '' '', CHR 0x09, CHR 0x0A, CHR 0x0B, CHR 0x0C, CHR 0x0D,
                           CHR 0x1C, CHR 0x1D, CHR 0x1E, CHR 0x1F])"

definition is_digit :: "char \<Rightarrow> bool" where
  "is_digit c = (c \<in> set ''0123456789'')"

text \<open>\<^verbatim>\<open>s.strip()\<close>: leading and trailing whitespace removed.\<close>

definition py_strip :: "string \<Rightarrow> string" where
  "py_strip s = rev (dropWhile is_space (rev (dropWhile is_space s)))"

text \<open>\<^verbatim>\<open>s.lower()\<close> on ASCII letters.\<close>

definition lower_char :: "char \<Rightarrow> char" where
  "lower_char c =
     (case map_of (zip ''ABCDEFGHIJKLMNOPQRSTUVWXYZ'' ''abcdefghijklmnopqrstuvwxyz'') c of
        Some d \<Rightarrow> d
      | None \<Rightarrow> c)"

definition py_lower :: "string \<Rightarrow> string" where
  "py_lower s = map lower_char s"

text \<open>\<^verbatim>\<open>sep.join(parts)\<close>.\<close>

fun py_join :: "string \<Rightarrow> string list \<Rightarrow> string" where
  "py_join sep [] = []"
| "py_join sep [p] = p"
| "py_join sep (p # q # ps) = p @ sep @ py_join sep (q # ps)"

text \<open>\<^verbatim>\<open>sub in s\<close> for strings: \<open>sub\<close> occurs in \<open>s\<close> as a contiguous substring.\<close>

fun starts_with :: "string \<Rightarrow> string \<Rightarrow> bool" where
  "starts_with s [] = True"
| "starts_with [] (c # sub) = False"
| "starts_with (d # s) (c # sub) = (d = c \<and> starts_with s sub)"

fun py_in :: "string \<Rightarrow> string \<Rightarrow> bool" where
  "py_in sub [] = (sub = [])"
| "py_in sub (d # s) = (starts_with (d # s) sub \<or> py_in sub s)"

text \<open>
  \<^verbatim>\<open>s.split()\<close>: the maximal runs of non-whitespace characters, in order.
  \<open>cur\<close> is the run being read, \<open>acc\<close> the runs already closed.
\<close>

fun split_loop :: "string \<Rightarrow> string \<Rightarrow> string list \<Rightarrow> string list" where
  "split_loop [] cur acc = (if cur = [] then acc else acc @ [cur])"
| "split_loop (c # s) cur acc =
     (if is_space c then split_loop s [] (if cur = [] then acc else acc @ [cur])
      else split_loop s (cur @ [c]) acc)"

definition py_split :: "string \<Rightarrow> string list" where
  "py_split s = split_loop s [] []"

text \<open>\<^verbatim>\<open>s.isdigit()\<close>: at least one character, and all of them digits.\<close>

definition py_isdigit :: "string \<Rightarrow> bool" where
  "py_isdigit s = (s \<noteq> [] \<and> list_all is_digit s)"

subsection \<open>Python's \<^verbatim>\<open>float(str)\<close>\<close>

text \<open>
  The builtin \<^verbatim>\<open>float\<close> applied to a string, for the decimal literals: surrounding
  whitespace is ignored, then an optional sign, digits with an optional fraction (at
  least one digit in all), and an optional exponent. \<open>None\<close> stands for
  \<^verbatim>\<open>ValueError\<close>. The literals \<^verbatim>\<open>inf\<close> and \<^verbatim>\<open>nan\<close> and underscores between digits are
  not modelled (they are rejected here).
\<close>

definition digit_val :: "char \<Rightarrow> nat" where
  "digit_val c = (case map_of (zip ''0123456789'' [0, 1, 2, 3, 4, 5, 6, 7, 8, 9]) c of
                    Some n \<Rightarrow> n
                  | None \<Rightarrow> 0)"

definition digits_val :: "string \<Rightarrow> nat" where
  "digits_val ds = foldl (\<lambda>a c. 10 * a + digit_val c) 0 ds"

definition parse_sign :: "string \<Rightarrow> int \<times> string" where
  "parse_sign s =
     (case s of
        c # r \<Rightarrow> if c = CHR ''+'' then (1, r) else if c = CHR ''-'' then (- 1, r) else (1, s)
      | [] \<Rightarrow> (1, s))"

definition parse_exponent :: "string \<Rightarrow> int option" where
  "parse_exponent s =
     (case s of
        [] \<Rightarrow> Some 0
      | c # r \<Rightarrow>
          if c = CHR ''e'' \<or> c = CHR ''E'' then
            (case parse_sign r of
               (sg, ds) \<Rightarrow> if py_isdigit ds then Some (sg * int (digits_val ds)) else None)
          else None)"

definition py_float :: "string \<Rightarrow> rat option" where
  "py_float s =
     (case parse_sign (py_strip s) of
        (sg, s2) \<Rightarrow>
          let ip = takeWhile is_digit s2;
              s3 = dropWhile is_digit s2;
              fp = (case s3 of c # r \<Rightarrow> if c = CHR ''.'' then takeWhile is_digit r else []
                    | [] \<Rightarrow> []);
              s4 = (case s3 of c # r \<Rightarrow> if c = CHR ''.'' then dropWhile is_digit r else s3
                    | [] \<Rightarrow> [])
          in if ip = [] \<and> fp = [] then None
             else (case parse_exponent s4 of
                     None \<Rightarrow> None
                   | Some e \<Rightarrow>
                       Some (of_int sg
                             * (of_nat (digits_val ip) + of_nat (digits_val fp) / 10 ^ length fp)
                             * (if 0 \<le> e then 10 ^ nat e else 1 / 10 ^ nat (- e)))))"

subsection \<open>Utility conversions\<close>

text \<open>
  \<^verbatim>\<open>as_number\<close>: the commas are removed, the rest is given to \<^verbatim>\<open>float\<close>; the bare
  \<^verbatim>\<open>except\<close> turns every exception into \<^verbatim>\<open>None\<close>.
\<close>

definition as_number :: "string \<Rightarrow> rat option" where
  "as_number v = (case py_float (filter (\<lambda>c. c \<noteq> CHR '','') v) of
                    Some n \<Rightarrow> Some n
                  | None \<Rightarrow> None)"

text \<open>\<^verbatim>\<open>strip_serial\<close>: a leading all-digit word of the description is dropped.\<close>

definition strip_serial :: "string \<Rightarrow> string" where
  "strip_serial d =
     (let parts = py_split d
      in if parts \<noteq> [] \<and> py_isdigit (hd parts) then py_join '' '' (tl parts) else d)"

subsection \<open>Grouping the OCR output into rows\<close>

text \<open>
  The dictionary returned by the OCR collaborator, with the three keys the code reads.
\<close>

record ocr_data =
  ocr_left :: "int list"
  ocr_top :: "int list"
  ocr_text :: "string list"

text \<open>A row is a list of pairs \<^verbatim>\<open>(x, text)\<close>.\<close>

type_synonym row = "(int \<times> string) list"

text \<open>
  The loop of \<^verbatim>\<open>group_tokens_by_line\<close> over the zipped \<^verbatim>\<open>(x, y, token)\<close> triples; its
  state is \<^verbatim>\<open>rows\<close>, \<^verbatim>\<open>current_line\<close> and \<^verbatim>\<open>previous_y\<close>. \<^verbatim>\<open>sorted\<close> with a key is a
  stable sort, as \<open>sort_key\<close> is.
\<close>

fun group_loop ::
  "int \<Rightarrow> (int \<times> int \<times> string) list \<Rightarrow> row list \<Rightarrow> row \<Rightarrow> int option \<Rightarrow> row list \<times> row"
where
  "group_loop threshold [] rows current_line previous_y = (rows, current_line)"
| "group_loop threshold ((x, y, token) # rest) rows current_line previous_y =
     (let cleaned = py_strip token
      in if cleaned = [] then group_loop threshold rest rows current_line previous_y
         else if (case previous_y of None \<Rightarrow> True | Some py \<Rightarrow> \<bar>y - py\<bar> \<le> threshold)
         then group_loop threshold rest rows (current_line @ [(x, cleaned)]) (Some y)
         else group_loop threshold rest (rows @ [sort_key fst current_line])
                [(x, cleaned)] (Some y))"

definition group_tokens_by_line :: "ocr_data \<Rightarrow> int \<Rightarrow> row list" where
  "group_tokens_by_line d threshold =
     (case group_loop threshold (zip (ocr_left d) (zip (ocr_top d) (ocr_text d))) [] [] None of
        (rows, current_line) \<Rightarrow>
          if current_line \<noteq> [] then rows @ [sort_key fst current_line] else rows)"

text \<open>The default value of the parameter \<^verbatim>\<open>threshold\<close>.\<close>

definition default_threshold :: int where
  "default_threshold = 12"

text \<open>
  The same loop with the y-coordinate kept beside each token, to state properties of the
  y-coordinates of a row: the code drops \<^verbatim>\<open>y\<close> when it stores \<^verbatim>\<open>(x, cleaned)\<close>.
\<close>

type_synonym yrow = "(int \<times> int \<times> string) list"

fun group_loop_y ::
  "int \<Rightarrow> (int \<times> int \<times> string) list \<Rightarrow> yrow list \<Rightarrow> yrow \<Rightarrow> int option \<Rightarrow> yrow list \<times> yrow"
where
  "group_loop_y threshold [] rows current_line previous_y = (rows, current_line)"
| "group_loop_y threshold ((x, y, token) # rest) rows current_line previous_y =
     (let cleaned = py_strip token
      in if cleaned = [] then group_loop_y threshold rest rows current_line previous_y
         else if (case previous_y of None \<Rightarrow> True | Some py \<Rightarrow> \<bar>y - py\<bar> \<le> threshold)
         then group_loop_y threshold rest rows (current_line @ [(x, y, cleaned)]) (Some y)
         else group_loop_y threshold rest (rows @ [sort_key fst current_line])
                [(x, y, cleaned)] (Some y))"

definition group_tokens_by_line_y :: "ocr_data \<Rightarrow> int \<Rightarrow> yrow list" where
  "group_tokens_by_line_y d threshold =
     (case group_loop_y threshold (zip (ocr_left d) (zip (ocr_top d) (ocr_text d))) [] [] None of
        (rows, current_line) \<Rightarrow>
          if current_line \<noteq> [] then rows @ [sort_key fst current_line] else rows)"

definition drop_y :: "int \<times> int \<times> string \<Rightarrow> int \<times> string" where
  "drop_y t = (case t of (x, y, s) \<Rightarrow> (x, s))"

subsection \<open>Locating the header and inferring the column boundaries\<close>

text \<open>\<^verbatim>\<open>" ".join(word for _, word in row).lower()\<close>\<close>

definition row_text :: "row \<Rightarrow> string" where
  "row_text r = py_lower (py_join '' '' (map snd r))"

text \<open>The test of the \<^verbatim>\<open>if\<close> in the search loop of \<^verbatim>\<open>find_table_header\<close>.\<close>

definition is_header :: "row \<Rightarrow> bool" where
  "is_header r =
     (let merged = row_text r
      in (py_in ''description'' merged \<and> py_in ''qty'' merged \<and> py_in ''rate'' merged)
         \<or> (py_in ''qty'' merged \<and> (py_in ''gross'' merged \<or> py_in ''amount'' merged)))"

text \<open>
  The search loop: \<open>idx\<close> counts as \<^verbatim>\<open>enumerate\<close> does, and the loop stops at the first
  row that passes the test.
\<close>

fun find_header_from :: "nat \<Rightarrow> row list \<Rightarrow> (nat \<times> row) option" where
  "find_header_from idx [] = None"
| "find_header_from idx (r # rows) =
     (if is_header r then Some (idx, r) else find_header_from (Suc idx) rows)"

text \<open>The dictionary \<^verbatim>\<open>positions\<close>, with its four keys in insertion order.\<close>

record positions =
  desc :: "int option"
  qty :: "int option"
  rate :: "int option"
  amt :: "int option"

definition classify :: "positions \<Rightarrow> int \<times> string \<Rightarrow> positions" where
  "classify p t =
     (case t of (x, word) \<Rightarrow>
        let w = py_lower word
        in if py_in ''desc'' w then p\<lparr>desc := Some x\<rparr>
           else if py_in ''qty'' w then p\<lparr>qty := Some x\<rparr>
           else if py_in ''rate'' w then p\<lparr>rate := Some x\<rparr>
           else if py_in ''amount'' w \<or> py_in ''gross'' w \<or> py_in ''net'' w then p\<lparr>amt := Some x\<rparr>
           else p)"

text \<open>The dictionary \<^verbatim>\<open>boundaries\<close>: from the names of the cut points to their x-values.\<close>

type_synonym boundaries = "string \<rightharpoonup> rat"

definition infer_boundaries :: "positions \<Rightarrow> boundaries" where
  "infer_boundaries p =
     (let xs = sort (List.map_filter id [desc p, qty p, rate p, amt p]);
          b0 = Map.empty;
          b1 = (if length xs > 1 then b0(''desc_end'' \<mapsto> of_int (xs ! 0 + xs ! 1) / 2) else b0);
          b2 = (if length xs > 2 then b1(''qty_end'' \<mapsto> of_int (xs ! 1 + xs ! 2) / 2) else b1);
          b3 = (if length xs > 3 then b2(''rate_end'' \<mapsto> of_int (xs ! 2 + xs ! 3) / 2) else b2)
      in b3)"

definition find_table_header :: "row list \<Rightarrow> nat option \<times> boundaries option" where
  "find_table_header rows =
     (case find_header_from 0 rows of
        None \<Rightarrow> (None, None)
      | Some (header_index, header_row) \<Rightarrow>
          let p = foldl classify \<lparr>desc = None, qty = None, rate = None, amt = None\<rparr> header_row
          in (Some header_index, Some (infer_boundaries p)))"

subsection \<open>Parsing the line items\<close>

record line_item =
  item_name :: string
  item_quantity :: rat
  item_rate :: rat
  item_amount :: rat

text \<open>\<^verbatim>\<open>boundaries.get(key, 99999)\<close>\<close>

definition get_boundary :: "boundaries \<Rightarrow> string \<Rightarrow> rat" where
  "get_boundary b k = (case b k of Some v \<Rightarrow> v | None \<Rightarrow> 99999)"

text \<open>
  The inner loop over the tokens of a row, with the four column lists
  \<^verbatim>\<open>desc_col\<close>, \<^verbatim>\<open>qty_col\<close>, \<^verbatim>\<open>rate_col\<close>, \<^verbatim>\<open>amt_col\<close> as its state.
\<close>

fun bucket_loop ::
  "boundaries \<Rightarrow> row \<Rightarrow> string list \<times> string list \<times> string list \<times> string list
     \<Rightarrow> string list \<times> string list \<times> string list \<times> string list"
where
  "bucket_loop b [] cols = cols"
| "bucket_loop b ((x, token) # rest) (desc_col, qty_col, rate_col, amt_col) =
     (if of_int x < get_boundary b ''desc_end''
      then bucket_loop b rest (desc_col @ [token], qty_col, rate_col, amt_col)
      else if of_int x < get_boundary b ''qty_end''
      then bucket_loop b rest (desc_col, qty_col @ [token], rate_col, amt_col)
      else if of_int x < get_boundary b ''rate_end''
      then bucket_loop b rest (desc_col, qty_col, rate_col @ [token], amt_col)
      else bucket_loop b rest (desc_col, qty_col, rate_col, amt_col @ [token]))"

definition bucket_tokens ::
  "boundaries \<Rightarrow> row \<Rightarrow> string list \<times> string list \<times> string list \<times> string list" where
  "bucket_tokens b r = bucket_loop b r ([], [], [], [])"

text \<open>The loop over \<^verbatim>\<open>amt_col\<close>: the first token that is a number.\<close>

fun first_amount :: "string list \<Rightarrow> rat option" where
  "first_amount [] = None"
| "first_amount (tok # rest) =
     (case as_number tok of Some num \<Rightarrow> Some num | None \<Rightarrow> first_amount rest)"

text \<open>
  The body of the loop over the rows, after the two stop markers: the item the row
  gives, or \<open>None\<close> where the code takes \<^verbatim>\<open>continue\<close>. A number is false in a Python
  condition when it is \<^verbatim>\<open>None\<close> or zero.
\<close>

definition row_item :: "boundaries \<Rightarrow> row \<Rightarrow> line_item option" where
  "row_item b r =
     (case bucket_tokens b r of
        (desc_col, qty_col, rate_col, amt_col) \<Rightarrow>
          let description = strip_serial (py_strip (py_join '' '' desc_col));
              quantity = as_number (concat qty_col);
              rate_val = as_number (concat rate_col);
              amount_val = first_amount amt_col
          in (case amount_val of
                None \<Rightarrow> None
              | Some a \<Rightarrow>
                  if description = [] then None
                  else Some \<lparr>item_name = description,
                             item_quantity = (case quantity of None \<Rightarrow> 1
                                              | Some q \<Rightarrow> if q = 0 then 1 else q),
                             item_rate = (case rate_val of None \<Rightarrow> a
                                          | Some v \<Rightarrow> if v = 0 then a else v),
                             item_amount = a\<rparr>))"

text \<open>
  The loop over the rows after the header: \<^verbatim>\<open>continue\<close> goes on with the rest,
  \<^verbatim>\<open>break\<close> returns the items collected so far.
\<close>

fun extract_loop :: "boundaries \<Rightarrow> row list \<Rightarrow> line_item list \<Rightarrow> line_item list" where
  "extract_loop b [] items = items"
| "extract_loop b (r # rest) items =
     (let row_text_full = row_text r
      in if py_in ''category total'' row_text_full then extract_loop b rest items
         else if py_in ''printed'' row_text_full then items
         else (case row_item b r of
                 None \<Rightarrow> extract_loop b rest items
               | Some it \<Rightarrow> extract_loop b rest (items @ [it])))"

definition extract_line_items ::
  "row list \<Rightarrow> nat option \<Rightarrow> boundaries option \<Rightarrow> line_item list" where
  "extract_line_items rows header_row_idx bounds =
     (case (header_row_idx, bounds) of
        (Some h, Some b) \<Rightarrow> extract_loop b (drop (h + 1) rows) []
      | _ \<Rightarrow> [])"

subsection \<open>The pipeline and the endpoint\<close>

record page =
  page_no :: string
  bill_items :: "line_item list"

record extraction_result =
  pagewise_line_items :: "page list"
  total_item_count :: nat
  reconciled_amount :: rat

text \<open>The dictionary returned by \<^verbatim>\<open>extract_bill_info_from_url\<close>.\<close>

record pipeline_result =
  is_success :: bool
  data :: extraction_result

text \<open>
  \<^verbatim>\<open>extract_bill_info_from_url\<close>. The two collaborators are parameters:
  \<open>load_image_from_url\<close> downloads the image and \<open>text_with_boxes\<close> runs the OCR; each
  returns its result or raises (\<open>Inl\<close> with the text of the exception), and an exception
  leaves the function at once. \<^verbatim>\<open>sum\<close> adds from the left, starting at 0.
\<close>

definition extract_bill_info_from_url ::
  "(string \<Rightarrow> string + 'img) \<Rightarrow> ('img \<Rightarrow> string + ocr_data) \<Rightarrow> string \<Rightarrow> string + pipeline_result"
where
  "extract_bill_info_from_url load_image_from_url text_with_boxes image_url =
     (case load_image_from_url image_url of
        Inl err \<Rightarrow> Inl err
      | Inr img \<Rightarrow>
          (case text_with_boxes img of
             Inl err \<Rightarrow> Inl err
           | Inr d \<Rightarrow>
               let rows = group_tokens_by_line d default_threshold;
                   hb = find_table_header rows;
                   line_items = extract_line_items rows (fst hb) (snd hb)
               in Inr \<lparr>is_success = True,
                       data = \<lparr>pagewise_line_items = [\<lparr>page_no = ''1'', bill_items = line_items\<rparr>],
                               total_item_count = length line_items,
                               reconciled_amount = foldl (+) 0 (map item_amount line_items)\<rparr>\<rparr>))"

text \<open>
  The response of the endpoint \<^verbatim>\<open>extract_bill_data\<close> of \<^verbatim>\<open>app.py\<close>; its \<^verbatim>\<open>data\<close> is
  whatever \<^verbatim>\<open>extract_bill_info_from_url\<close> returned, or \<^verbatim>\<open>None\<close>.
\<close>

record api_response =
  is_success :: bool
  data :: "pipeline_result option"
  error :: "string option"

definition extract_bill_data ::
  "(string \<Rightarrow> string + 'img) \<Rightarrow> ('img \<Rightarrow> string + ocr_data) \<Rightarrow> string \<Rightarrow> api_response"
where
  "extract_bill_data load_image_from_url text_with_boxes document =
     (case extract_bill_info_from_url load_image_from_url text_with_boxes document of
        Inr result \<Rightarrow> \<lparr>is_success = True, data = Some result, error = None\<rparr>
      | Inl err \<Rightarrow> \<lparr>is_success = False, data = None, error = Some (''Processing failed: '' @ err)\<rparr>)"

subsection \<open>Concrete inputs\<close>

text \<open>
  The tokens of the end-to-end scenario: a header at \<open>y = 0\<close> and one item row at
  \<open>y = 20\<close>; the rows, boundaries and item they give.
\<close>

definition scenario :: ocr_data where
  "scenario = \<lparr>ocr_left = [10, 200, 300, 400, 10, 40, 210, 310, 410],
               ocr_top = [0, 0, 0, 0, 20, 20, 20, 20, 20],
               ocr_text = [''Description'', ''Qty'', ''Rate'', ''Amount'',
                           ''1'', ''Widget'', ''2'', ''5.00'', ''10.00'']\<rparr>"

definition header_row :: row where
  "header_row = [(10, ''Description''), (200, ''Qty''), (300, ''Rate''), (400, ''Amount'')]"

definition scenario_rows :: "row list" where
  "scenario_rows =
     [header_row,
      [(10, ''1''), (40, ''Widget''), (210, ''2''), (310, ''5.00''), (410, ''10.00'')]]"

definition scenario_boundaries :: boundaries where
  "scenario_boundaries = [''desc_end'' \<mapsto> 105, ''qty_end'' \<mapsto> 250, ''rate_end'' \<mapsto> 350]"

definition scenario_item :: line_item where
  "scenario_item = \<lparr>item_name = ''Widget'', item_quantity = 2, item_rate = 5, item_amount = 10\<rparr>"

definition scenario_result :: pipeline_result where
  "scenario_result =
     \<lparr>pipeline_result.is_success = True,
      data = \<lparr>pagewise_line_items = [\<lparr>page_no = ''1'', bill_items = [scenario_item]\<rparr>],
              total_item_count = 1,
              reconciled_amount = 10\<rparr>\<rparr>"

text \<open>An OCR result without tokens, and one without a header.\<close>

definition blank_page :: ocr_data where
  "blank_page = \<lparr>ocr_left = [], ocr_top = [], ocr_text = []\<rparr>"

definition plain_page :: ocr_data where
  "plain_page = \<lparr>ocr_left = [10, 60], ocr_top = [0, 0], ocr_text = [''Hello'', ''World'']\<rparr>"

text \<open>
  Rows after the header: a footer row that holds both markers, a footer row that holds
  \<^verbatim>\<open>printed\<close> only, an item row, and an item row whose quantity is zero.
\<close>

definition both_markers_row :: row where
  "both_markers_row = [(10, ''Category''), (90, ''Total''), (170, ''Printed'')]"

definition printed_row :: row where
  "printed_row = [(10, ''Printed''), (90, ''on''), (170, ''Monday'')]"

definition widget_row :: row where
  "widget_row = [(10, ''Widget''), (410, ''10.00'')]"

definition zero_qty_row :: row where
  "zero_qty_row = [(10, ''Widget''), (210, ''0''), (310, ''5.00''), (410, ''10.00'')]"

subsection \<open>Predicates used in the properties\<close>

text \<open>
  A header token is classified when one of the tests of the \<^verbatim>\<open>if\<close>/\<^verbatim>\<open>elif\<close> chain of
  \<^verbatim>\<open>find_table_header\<close> holds for it; \<open>filled\<close> counts the slots of \<^verbatim>\<open>positions\<close> that
  are not \<^verbatim>\<open>None\<close>.
\<close>

definition classified :: "int \<times> string \<Rightarrow> bool" where
  "classified t =
     (case t of (x, word) \<Rightarrow>
        let w = py_lower word
        in py_in ''desc'' w \<or> py_in ''qty'' w \<or> py_in ''rate'' w
           \<or> py_in ''amount'' w \<or> py_in ''gross'' w \<or> py_in ''net'' w)"

definition filled :: "positions \<Rightarrow> nat" where
  "filled p = length (List.map_filter id [desc p, qty p, rate p, amt p])"

text \<open>The y-coordinate of a token kept by \<open>group_tokens_by_line_y\<close>.\<close>

definition y_of :: "int \<times> int \<times> string \<Rightarrow> int" where
  "y_of t = fst (snd t)"

text \<open>Any two tokens of the row are within \<open>threshold\<close> of each other in y.\<close>

definition mutually_close :: "int \<Rightarrow> yrow \<Rightarrow> bool" where
  "mutually_close threshold r =
     list_all (\<lambda>t. list_all (\<lambda>t'. \<bar>y_of t - y_of t'\<bar> \<le> threshold) r) r"

text \<open>Each y-coordinate of the list is within \<open>threshold\<close> of the one before it.\<close>

fun chain_close :: "int \<Rightarrow> int list \<Rightarrow> bool" where
  "chain_close threshold [] = True"
| "chain_close threshold [y] = True"
| "chain_close threshold (y # y' # ys) = (\<bar>y' - y\<bar> \<le> threshold \<and> chain_close threshold (y' # ys))"

text \<open>
  Any two tokens of a row of \<open>n\<close> tokens are within \<open>(n - 1) * threshold\<close> of each other
  in y.
\<close>

definition spread_ok :: "int \<Rightarrow> yrow \<Rightarrow> bool" where
  "spread_ok threshold r =
     (\<forall>t\<in>set r. \<forall>t'\<in>set r. \<bar>y_of t - y_of t'\<bar> \<le> (int (length r) - 1) * threshold)"

text \<open>
  Three tokens, each 10 below the one before; a header that is a single token, after a
  title row and before an item row whose amount lies beyond \<open>x = 99999\<close>.
\<close>

definition chain_page :: ocr_data where
  "chain_page = \<lparr>ocr_left = [10, 50, 90], ocr_top = [0, 10, 20], ocr_text = [''a'', ''b'', ''c'']\<rparr>"

definition sparse_rows :: "row list" where
  "sparse_rows =
     [[(10, ''Invoice'')],
      [(10, ''Qty/Amount'')],
      [(10, ''Widget''), (100000, ''10.00'')]]"

section \<open>Properties\<close>

subsection \<open>Auxiliary facts\<close>


lemma scenario_group: "group_tokens_by_line scenario default_threshold = scenario_rows"
  by code_simp

lemma scenario_header_row: "find_header_from 0 scenario_rows = Some (0, header_row)"
  by code_simp

lemma scenario_positions:
  "foldl classify \<lparr>desc = None, qty = None, rate = None, amt = None\<rparr> header_row
   = \<lparr>desc = Some 10, qty = Some 200, rate = Some 300, amt = Some 400\<rparr>"
  by code_simp

lemma scenario_infer:
  "infer_boundaries \<lparr>desc = Some 10, qty = Some 200, rate = Some 300, amt = Some 400\<rparr>
   = scenario_boundaries"
  by (simp add: infer_boundaries_def scenario_boundaries_def List.map_filter_def)

lemma scenario_header: "find_table_header scenario_rows = (Some 0, Some scenario_boundaries)"
  by (simp add: find_table_header_def scenario_header_row scenario_positions scenario_infer)

lemma scenario_items:
  "extract_line_items scenario_rows (Some 0) (Some scenario_boundaries) = [scenario_item]"
  by code_simp

lemma scenario_pipeline:
  "extract_bill_info_from_url (\<lambda>url. Inr img) (\<lambda>i. Inr scenario) u = Inr scenario_result"
  by (simp add: extract_bill_info_from_url_def scenario_group scenario_header scenario_items
      scenario_item_def scenario_result_def)

lemma no_header_found: "\<forall>r\<in>set rows. \<not> is_header r \<Longrightarrow> find_header_from k rows = None"
  by (induction rows arbitrary: k) simp_all

lemma extract_loop_printed:
  "py_in ''printed'' (row_text r) \<Longrightarrow> \<not> py_in ''category total'' (row_text r)
   \<Longrightarrow> extract_loop b (pre @ r # post) items = extract_loop b pre items"
  by (induction pre arbitrary: items) (simp_all add: Let_def split: option.split)

lemma drop_split_at:
  assumes "h < i" and "i < length rows"
  shows "drop (h + 1) rows = drop (h + 1) (take i rows) @ rows ! i # drop (Suc i) rows"
proof -
  have "drop (h + 1) rows = drop (h + 1) (take i rows @ drop i rows)" by simp
  also have "\<dots> = drop (h + 1) (take i rows) @ drop i rows"
    using assms by (simp del: append_take_drop_id)
  also have "drop i rows = rows ! i # drop (Suc i) rows"
    using assms by (simp add: Cons_nth_drop_Suc)
  finally show ?thesis .
qed

lemma extract_loop_items:
  "it \<in> set (extract_loop b rs items)
   \<Longrightarrow> it \<in> set items \<or> (\<exists>r\<in>set rs. row_item b r = Some it)"
proof (induction rs arbitrary: items)
  case Nil
  then show ?case by simp
next
  case (Cons r rs)
  show ?case
  proof (cases "py_in ''category total'' (row_text r)")
    case True
    with Cons.prems have "it \<in> set (extract_loop b rs items)" by simp
    from Cons.IH [OF this] show ?thesis by auto
  next
    case nc: False
    show ?thesis
    proof (cases "py_in ''printed'' (row_text r)")
      case True
      with nc Cons.prems show ?thesis by simp
    next
      case np: False
      show ?thesis
      proof (cases "row_item b r")
        case None
        with nc np Cons.prems have "it \<in> set (extract_loop b rs items)" by simp
        from Cons.IH [OF this] show ?thesis by auto
      next
        case (Some new)
        with nc np Cons.prems have "it \<in> set (extract_loop b rs (items @ [new]))" by simp
        from Cons.IH [OF this] Some show ?thesis by auto
      qed
    qed
  qed
qed

lemma row_item_fields:
  assumes "row_item b r = Some it"
  shows "\<exists>desc_col qty_col rate_col amt_col.
           bucket_tokens b r = (desc_col, qty_col, rate_col, amt_col)
           \<and> first_amount amt_col = Some (item_amount it)
           \<and> item_quantity it = (case as_number (concat qty_col) of
                                   None \<Rightarrow> 1 | Some q \<Rightarrow> if q = 0 then 1 else q)
           \<and> item_rate it = (case as_number (concat rate_col) of
                               None \<Rightarrow> item_amount it
                             | Some v \<Rightarrow> if v = 0 then item_amount it else v)"
proof -
  obtain dc qc rc ac where bt: "bucket_tokens b r = (dc, qc, rc, ac)"
    by (cases "bucket_tokens b r") auto
  from assms bt obtain a where a: "first_amount ac = Some a"
    by (cases "first_amount ac") (simp_all add: row_item_def)
  from assms bt a have
    "it = \<lparr>item_name = strip_serial (py_strip (py_join '' '' dc)),
           item_quantity = (case as_number (concat qc) of None \<Rightarrow> 1
                            | Some q \<Rightarrow> if q = 0 then 1 else q),
           item_rate = (case as_number (concat rc) of None \<Rightarrow> a
                        | Some v \<Rightarrow> if v = 0 then a else v),
           item_amount = a\<rparr>"
    by (simp add: row_item_def Let_def split: if_splits)
  then have "item_amount it = a"
    and "item_quantity it = (case as_number (concat qc) of None \<Rightarrow> 1
                            | Some q \<Rightarrow> if q = 0 then 1 else q)"
    and "item_rate it = (case as_number (concat rc) of None \<Rightarrow> a
                        | Some v \<Rightarrow> if v = 0 then a else v)"
    by simp_all
  with bt a show ?thesis by (simp split: option.split)
qed

lemma bucket_loop_filter:
  "bucket_loop b r (dc, qc, rc, ac) =
     (dc @ map snd (filter (\<lambda>(x, tok). of_int x < get_boundary b ''desc_end'') r),
      qc @ map snd (filter (\<lambda>(x, tok). \<not> of_int x < get_boundary b ''desc_end''
                                        \<and> of_int x < get_boundary b ''qty_end'') r),
      rc @ map snd (filter (\<lambda>(x, tok). \<not> of_int x < get_boundary b ''desc_end''
                                        \<and> \<not> of_int x < get_boundary b ''qty_end''
                                        \<and> of_int x < get_boundary b ''rate_end'') r),
      ac @ map snd (filter (\<lambda>(x, tok). \<not> of_int x < get_boundary b ''desc_end''
                                        \<and> \<not> of_int x < get_boundary b ''qty_end''
                                        \<and> \<not> of_int x < get_boundary b ''rate_end'') r))"
proof (induction r arbitrary: dc qc rc ac)
  case Nil
  show ?case by simp
next
  case (Cons t r)
  obtain x tok where t: "t = (x, tok)" by (cases t)
  show ?case unfolding t by (simp add: Cons.IH)
qed

lemma classify_filled:
  "filled (classify p t) \<le> filled p + (if classified t then 1 else 0)"
proof -
  obtain x word where t: "t = (x, word)" by (cases t)
  show ?thesis
    unfolding t
    by (cases "desc p"; cases "qty p"; cases "rate p"; cases "amt p")
       (simp_all add: classify_def classified_def filled_def List.map_filter_def Let_def)
qed

lemma foldl_classify_filled:
  "filled (foldl classify p r) \<le> filled p + length (filter classified r)"
proof (induction r arbitrary: p)
  case Nil
  show ?case by simp
next
  case (Cons t r)
  have "filled (foldl classify (classify p t) r)
          \<le> filled (classify p t) + length (filter classified r)"
    by (rule Cons.IH)
  also have "\<dots> \<le> filled p + (if classified t then 1 else 0) + length (filter classified r)"
    using classify_filled [of p t] by simp
  finally show ?case by (simp split: if_splits)
qed

lemma infer_boundaries_empty: "filled p \<le> 1 \<Longrightarrow> infer_boundaries p = Map.empty"
  by (simp add: infer_boundaries_def filled_def Let_def)

lemma find_header_first:
  "i < length rows \<Longrightarrow> is_header (rows ! i) \<Longrightarrow> \<forall>j<i. \<not> is_header (rows ! j)
   \<Longrightarrow> find_header_from k rows = Some (k + i, rows ! i)"
proof (induction rows arbitrary: i k)
  case Nil
  then show ?case by simp
next
  case (Cons r rows)
  show ?case
  proof (cases i)
    case 0
    with Cons.prems show ?thesis by simp
  next
    case (Suc i')
    from Cons.prems Suc have nr: "\<not> is_header r" by auto
    from Cons.prems Suc have "i' < length rows" and "is_header (rows ! i')"
      and "\<forall>j<i'. \<not> is_header (rows ! j)" by auto
    from Cons.IH [OF this, of "Suc k"] nr Suc show ?thesis by simp
  qed
qed

lemma header_coupled:
  "fst (find_table_header rows) = None \<longleftrightarrow> snd (find_table_header rows) = None"
  by (simp add: find_table_header_def Let_def split: option.split prod.split)

lemma drop_y_triple: "drop_y (x, y, s) = (x, s)"
  by (simp add: drop_y_def)

lemma y_of_triple: "y_of (x, y, s) = y"
  by (simp add: y_of_def)

lemma insort_key_drop_y:
  "map drop_y (insort_key fst t ts) = insort_key fst (drop_y t) (map drop_y ts)"
  by (induction ts) (auto simp: drop_y_def split: prod.splits)

lemma sort_key_drop_y: "map drop_y (sort_key fst ts) = sort_key fst (map drop_y ts)"
  by (induction ts) (simp_all add: insort_key_drop_y)

lemma group_loop_drop_y:
  "group_loop T toks (map (map drop_y) rows) (map drop_y cur) prev =
     (case group_loop_y T toks rows cur prev of
        (rs, c) \<Rightarrow> (map (map drop_y) rs, map drop_y c))"
proof (induction toks arbitrary: rows cur prev)
  case Nil
  show ?case by simp
next
  case (Cons tok toks)
  obtain x y s where tok: "tok = (x, y, s)" by (cases tok)
  have ext: "group_loop T toks (map (map drop_y) rows) (map drop_y cur @ [(x, py_strip s)]) p
             = (case group_loop_y T toks rows (cur @ [(x, y, py_strip s)]) p of
                  (rs, c) \<Rightarrow> (map (map drop_y) rs, map drop_y c))" for p
    using Cons.IH [of rows "cur @ [(x, y, py_strip s)]" p] by (simp add: drop_y_triple)
  have new: "group_loop T toks (map (map drop_y) rows @ [sort_key fst (map drop_y cur)])
               [(x, py_strip s)] p
             = (case group_loop_y T toks (rows @ [sort_key fst cur]) [(x, y, py_strip s)] p of
                  (rs, c) \<Rightarrow> (map (map drop_y) rs, map drop_y c))" for p
    using Cons.IH [of "rows @ [sort_key fst cur]" "[(x, y, py_strip s)]" p]
    by (simp add: drop_y_triple sort_key_drop_y)
  show ?case
    unfolding tok by (simp add: Let_def Cons.IH ext new)
qed

lemma group_drop_y:
  "map (map drop_y) (group_tokens_by_line_y d T) = group_tokens_by_line d T"
proof -
  obtain rs c where g: "group_loop_y T (zip (ocr_left d) (zip (ocr_top d) (ocr_text d))) [] [] None
                          = (rs, c)"
    by (cases "group_loop_y T (zip (ocr_left d) (zip (ocr_top d) (ocr_text d))) [] [] None")
  from group_loop_drop_y [of T "zip (ocr_left d) (zip (ocr_top d) (ocr_text d))" "[]" "[]" None] g
  have "group_loop T (zip (ocr_left d) (zip (ocr_top d) (ocr_text d))) [] [] None
          = (map (map drop_y) rs, map drop_y c)"
    by simp
  with g show ?thesis
    by (simp add: group_tokens_by_line_def group_tokens_by_line_y_def sort_key_drop_y)
qed

lemma chain_close_tail: "chain_close T (y # ys) \<Longrightarrow> chain_close T ys"
  by (cases ys) simp_all

lemma chain_close_nonneg: "chain_close T (y # y' # ys) \<Longrightarrow> 0 \<le> T"
proof -
  assume "chain_close T (y # y' # ys)"
  then have "\<bar>y' - y\<bar> \<le> T" by simp
  then show ?thesis by linarith
qed

lemma chain_close_snoc:
  "chain_close T (ys @ [y]) \<longleftrightarrow> chain_close T ys \<and> (ys = [] \<or> \<bar>y - last ys\<bar> \<le> T)"
  by (induction T ys rule: chain_close.induct) auto

lemma chain_first:
  "chain_close T (y0 # ys) \<Longrightarrow> y \<in> set ys \<Longrightarrow> \<bar>y - y0\<bar> \<le> int (length ys) * T"
proof (induction ys arbitrary: y0)
  case Nil
  then show ?case by simp
next
  case (Cons y1 ys)
  from Cons.prems(1) have step: "\<bar>y1 - y0\<bar> \<le> T" and rest: "chain_close T (y1 # ys)"
    by simp_all
  from step have T: "0 \<le> T" by linarith
  then have nT: "0 \<le> int (length ys) * T" by simp
  have len: "int (length (y1 # ys)) * T = int (length ys) * T + T"
    by (simp add: algebra_simps)
  show ?case
  proof (cases "y = y1")
    case True
    with step nT len show ?thesis by linarith
  next
    case False
    with Cons.prems(2) have "y \<in> set ys" by simp
    from Cons.IH [OF rest this] have "\<bar>y - y1\<bar> \<le> int (length ys) * T" .
    with step len show ?thesis by linarith
  qed
qed

lemma chain_pair:
  "chain_close T ys \<Longrightarrow> y \<in> set ys \<Longrightarrow> y' \<in> set ys
   \<Longrightarrow> \<bar>y - y'\<bar> \<le> (int (length ys) - 1) * T"
proof (induction ys)
  case Nil
  then show ?case by simp
next
  case (Cons y0 ys)
  have len: "(int (length (y0 # ys)) - 1) * T = int (length ys) * T"
    by simp
  have T: "0 \<le> T" if "ys \<noteq> []"
    using that Cons.prems(1) by (cases ys) (auto dest: chain_close_nonneg)
  have nT: "0 \<le> int (length ys) * T"
  proof (cases "ys = []")
    case True
    then show ?thesis by simp
  next
    case False
    with T show ?thesis by simp
  qed
  consider "y = y0" "y' = y0" | "y = y0" "y' \<in> set ys" | "y \<in> set ys" "y' = y0"
    | "y \<in> set ys" "y' \<in> set ys"
    using Cons.prems(2,3) by auto
  then show ?case
  proof cases
    case 1
    with nT len show ?thesis by simp
  next
    case 2
    from chain_first [OF Cons.prems(1) 2(2)] 2(1) len show ?thesis by simp
  next
    case 3
    from chain_first [OF Cons.prems(1) 3(1)] 3(2) len show ?thesis by simp
  next
    case 4
    then have ne: "ys \<noteq> []" by auto
    from Cons.IH [OF chain_close_tail [OF Cons.prems(1)] 4]
    have "\<bar>y - y'\<bar> \<le> (int (length ys) - 1) * T" .
    also have "\<dots> = int (length ys) * T - T" by (simp add: algebra_simps)
    also have "\<dots> \<le> int (length ys) * T" using T [OF ne] by simp
    finally show ?thesis using len by simp
  qed
qed

lemma spread_ok_sorted: "chain_close T (map y_of cur) \<Longrightarrow> spread_ok T (sort_key fst cur)"
  unfolding spread_ok_def
proof (intro ballI)
  fix t t'
  assume c: "chain_close T (map y_of cur)"
    and "t \<in> set (sort_key fst cur)" and "t' \<in> set (sort_key fst cur)"
  then have "y_of t \<in> set (map y_of cur)" and "y_of t' \<in> set (map y_of cur)"
    by simp_all
  from chain_pair [OF c this]
  show "\<bar>y_of t - y_of t'\<bar> \<le> (int (length (sort_key fst cur)) - 1) * T"
    by simp
qed

lemma group_loop_y_spread:
  assumes "\<forall>r\<in>set rows. spread_ok T r"
    and "chain_close T (map y_of cur)"
    and "case prev of None \<Rightarrow> cur = [] | Some py \<Rightarrow> cur \<noteq> [] \<and> y_of (last cur) = py"
    and "group_loop_y T toks rows cur prev = (rows', cur')"
  shows "(\<forall>r\<in>set rows'. spread_ok T r) \<and> chain_close T (map y_of cur')"
  using assms
proof (induction toks arbitrary: rows cur prev)
  case Nil
  then show ?case by simp
next
  case (Cons tok toks)
  obtain x y s where tok: "tok = (x, y, s)" by (cases tok)
  show ?case
  proof (cases "py_strip s = []")
    case True
    with Cons.prems(4) tok have "group_loop_y T toks rows cur prev = (rows', cur')"
      by simp
    from Cons.IH [OF Cons.prems(1,2,3) this] show ?thesis .
  next
    case ne: False
    show ?thesis
    proof (cases "case prev of None \<Rightarrow> True | Some py \<Rightarrow> \<bar>y - py\<bar> \<le> T")
      case True
      with ne Cons.prems(4) tok
      have run: "group_loop_y T toks rows (cur @ [(x, y, py_strip s)]) (Some y) = (rows', cur')"
        by (simp add: Let_def)
      from True Cons.prems(3) have "cur = [] \<or> \<bar>y - last (map y_of cur)\<bar> \<le> T"
        by (cases prev) (simp_all add: last_map)
      with Cons.prems(2) have c: "chain_close T (map y_of (cur @ [(x, y, py_strip s)]))"
        by (simp add: chain_close_snoc y_of_triple)
      have p: "case Some y of None \<Rightarrow> cur @ [(x, y, py_strip s)] = []
               | Some py \<Rightarrow> cur @ [(x, y, py_strip s)] \<noteq> []
                   \<and> y_of (last (cur @ [(x, y, py_strip s)])) = py"
        by (simp add: y_of_triple)
      from Cons.IH [OF Cons.prems(1) c p run] show ?thesis .
    next
      case False
      with ne Cons.prems(4) tok
      have run: "group_loop_y T toks (rows @ [sort_key fst cur]) [(x, y, py_strip s)] (Some y)
                   = (rows', cur')"
        by (simp add: Let_def)
      from Cons.prems(1) spread_ok_sorted [OF Cons.prems(2)]
      have r: "\<forall>r\<in>set (rows @ [sort_key fst cur]). spread_ok T r"
        by simp
      have c: "chain_close T (map y_of [(x, y, py_strip s)])" by simp
      have p: "case Some y of None \<Rightarrow> [(x, y, py_strip s)] = []
               | Some py \<Rightarrow> [(x, y, py_strip s)] \<noteq> [] \<and> y_of (last [(x, y, py_strip s)]) = py"
        by (simp add: y_of_triple)
      from Cons.IH [OF r c p run] show ?thesis .
    qed
  qed
qed

lemma group_y_spread: "r \<in> set (group_tokens_by_line_y d T) \<Longrightarrow> spread_ok T r"
proof -
  assume m: "r \<in> set (group_tokens_by_line_y d T)"
  obtain rs c where g: "group_loop_y T (zip (ocr_left d) (zip (ocr_top d) (ocr_text d))) [] [] None
                          = (rs, c)"
    by (cases "group_loop_y T (zip (ocr_left d) (zip (ocr_top d) (ocr_text d))) [] [] None")
  have "(\<forall>r\<in>set rs. spread_ok T r) \<and> chain_close T (map y_of c)"
    by (rule group_loop_y_spread [OF _ _ _ g]) simp_all
  with spread_ok_sorted [of T c] m g show ?thesis
    by (auto simp: group_tokens_by_line_y_def split: if_splits)
qed

subsection \<open>Numeric coercion\<close>


subsection \<open>The end-to-end scenario\<close>

text \<open>
  Claim C2. On the tokens of the scenario, grouped with the default threshold 12, the
  header is row 0, the boundaries are \<open>desc_end = 105\<close>, \<open>qty_end = 250\<close>,
  \<open>rate_end = 350\<close>, and the pipeline returns exactly one item, Widget with quantity 2,
  rate 5.00 and amount 10.00, with \<open>total_item_count = 1\<close> and
  \<open>reconciled_amount = 10.00\<close>.
\<close>

theorem end_to_end_scenario:
  "find_table_header (group_tokens_by_line scenario default_threshold)
     = (Some 0, Some [''desc_end'' \<mapsto> 105, ''qty_end'' \<mapsto> 250, ''rate_end'' \<mapsto> 350])
   \<and> extract_bill_info_from_url (\<lambda>url. Inr img) (\<lambda>i. Inr scenario) u
     = Inr \<lparr>pipeline_result.is_success = True,
            data = \<lparr>pagewise_line_items =
                      [\<lparr>page_no = ''1'',
                        bill_items = [\<lparr>item_name = ''Widget'', item_quantity = 2,
                                       item_rate = 5, item_amount = 10\<rparr>]\<rparr>],
                    total_item_count = 1,
                    reconciled_amount = 10\<rparr>\<rparr>"
proof -
  have "find_table_header (group_tokens_by_line scenario default_threshold)
          = (Some 0, Some scenario_boundaries)"
    by (simp only: scenario_group scenario_header)
  then show ?thesis
    by (simp add: scenario_pipeline scenario_boundaries_def scenario_result_def
        scenario_item_def)
qed

subsection \<open>The totals of the result\<close>



subsection \<open>No header\<close>

text \<open>
  Claim C6. When the collaborators succeed and no row of the grouped tokens passes the
  header test, the pipeline raises no error and returns the result with an empty item
  list, \<open>total_item_count = 0\<close> and \<open>reconciled_amount = 0\<close>.
\<close>

theorem no_header_empty_result:
  assumes "load_image url = Inr img" and "text_boxes img = Inr d"
    and "\<forall>r\<in>set (group_tokens_by_line d default_threshold). \<not> is_header r"
  shows "extract_bill_info_from_url load_image text_boxes url
         = Inr \<lparr>pipeline_result.is_success = True,
                data = \<lparr>pagewise_line_items = [\<lparr>page_no = ''1'', bill_items = []\<rparr>],
                        total_item_count = 0,
                        reconciled_amount = 0\<rparr>\<rparr>"
  using assms
  by (simp add: extract_bill_info_from_url_def find_table_header_def no_header_found
      extract_line_items_def)

theorem no_header_empty_result_witness:
  "list_all (\<lambda>r. \<not> is_header r) (group_tokens_by_line plain_page default_threshold)
   \<and> extract_bill_info_from_url (\<lambda>url. Inr ()) (\<lambda>i. Inr plain_page) ''bill.png''
       = Inr \<lparr>pipeline_result.is_success = True,
              data = \<lparr>pagewise_line_items = [\<lparr>page_no = ''1'', bill_items = []\<rparr>],
                      total_item_count = 0,
                      reconciled_amount = 0\<rparr>\<rparr>"
proof -
  have g: "group_tokens_by_line plain_page default_threshold = [[(10, ''Hello''), (60, ''World'')]]"
    by code_simp
  have n: "\<not> is_header [(10, ''Hello''), (60, ''World'')]"
    by code_simp
  have h: "\<forall>r\<in>set (group_tokens_by_line plain_page default_threshold). \<not> is_header r"
    by (simp add: g n)
  from no_header_empty_result [of "\<lambda>url. Inr ()" "''bill.png''" "()" "\<lambda>i. Inr plain_page", OF refl refl h] h
  show ?thesis by (simp add: list_all_iff)
qed

subsection \<open>The endpoint\<close>

text \<open>
  Claim C4. The endpoint answers with \<open>is_success\<close>, \<open>data\<close> and \<open>error\<close>. The claim
  says that on success \<open>data\<close> is the extraction result itself. On a page without
  tokens the pipeline succeeds, and the \<open>data\<close> of the answer is the whole dictionary
  that \<^verbatim>\<open>extract_bill_info_from_url\<close> returned, with its own \<open>is_success\<close> and \<open>data\<close>:
  the extraction result lies one level deeper. When a collaborator raises, the answer
  has \<open>is_success = False\<close>, no \<open>data\<close> and the message of the exception.
\<close>

theorem endpoint_wraps_twice:
  "extract_bill_data (\<lambda>url. Inr img) (\<lambda>i. Inr blank_page) document
   = \<lparr>is_success = True,
      data = Some \<lparr>pipeline_result.is_success = True,
                   data = \<lparr>pagewise_line_items = [\<lparr>page_no = ''1'', bill_items = []\<rparr>],
                           total_item_count = 0,
                           reconciled_amount = 0\<rparr>\<rparr>,
      error = None\<rparr>
   \<and> extract_bill_data (\<lambda>url. Inl err) text_boxes document
     = \<lparr>is_success = False, data = None, error = Some (''Processing failed: '' @ err)\<rparr>"
  by (simp add: extract_bill_data_def extract_bill_info_from_url_def blank_page_def
      group_tokens_by_line_def find_table_header_def extract_line_items_def)

subsection \<open>The footer marker\<close>

text \<open>
  Claim C7, as stated: a row after the header whose text contains \<^verbatim>\<open>printed\<close> halts the
  extraction. It fails for a row that also contains \<^verbatim>\<open>category total\<close>: that test comes
  first and skips the row, so the rows after it are still read. Here row 1 contains
  both markers and row 2 gives an item.
\<close>

theorem printed_counterexample:
  "py_in ''printed'' (row_text ([header_row, both_markers_row, widget_row] ! 1))
   \<and> find_table_header [header_row, both_markers_row, widget_row]
       = (Some 0, Some scenario_boundaries)
   \<and> extract_line_items [header_row, both_markers_row, widget_row] (Some 0)
        (Some scenario_boundaries)
       = [\<lparr>item_name = ''Widget'', item_quantity = 1, item_rate = 10, item_amount = 10\<rparr>]"
proof -
  have p: "py_in ''printed'' (row_text ([header_row, both_markers_row, widget_row] ! 1))"
    by code_simp
  have "is_header header_row"
    by code_simp
  then have f: "find_header_from 0 [header_row, both_markers_row, widget_row]
                  = Some (0, header_row)"
    by simp
  have h: "find_table_header [header_row, both_markers_row, widget_row]
             = (Some 0, Some scenario_boundaries)"
    unfolding find_table_header_def f by (simp add: scenario_positions scenario_infer)
  have e: "extract_line_items [header_row, both_markers_row, widget_row] (Some 0)
             (Some scenario_boundaries)
           = [\<lparr>item_name = ''Widget'', item_quantity = 1, item_rate = 10, item_amount = 10\<rparr>]"
    by code_simp
  from p h e show ?thesis by blast
qed

text \<open>
  Claim C7, amended: a row after the header whose text contains \<^verbatim>\<open>printed\<close> and does not
  contain \<^verbatim>\<open>category total\<close> halts the extraction: the items are those of the rows before
  it, and no item comes from that row or from a later one.
\<close>

theorem printed_halts:
  assumes "h < i" and "i < length rows"
    and "py_in ''printed'' (row_text (rows ! i))"
    and "\<not> py_in ''category total'' (row_text (rows ! i))"
  shows "extract_line_items rows (Some h) (Some b)
         = extract_line_items (take i rows) (Some h) (Some b)"
proof -
  have "extract_loop b (drop (h + 1) rows) []
          = extract_loop b (drop (h + 1) (take i rows) @ rows ! i # drop (Suc i) rows) []"
    by (simp only: drop_split_at [OF assms(1,2)])
  also have "\<dots> = extract_loop b (drop (h + 1) (take i rows)) []"
    using assms(3,4) by (rule extract_loop_printed)
  finally show ?thesis
    by (simp add: extract_line_items_def)
qed

theorem printed_halts_witness:
  "(0::nat) < 1 \<and> 1 < length [header_row, printed_row, widget_row]
   \<and> py_in ''printed'' (row_text ([header_row, printed_row, widget_row] ! 1))
   \<and> \<not> py_in ''category total'' (row_text ([header_row, printed_row, widget_row] ! 1))
   \<and> extract_line_items [header_row, printed_row, widget_row] (Some 0) (Some scenario_boundaries)
       = extract_line_items (take 1 [header_row, printed_row, widget_row]) (Some 0)
           (Some scenario_boundaries)
   \<and> extract_line_items [header_row, printed_row, widget_row] (Some 0) (Some scenario_boundaries)
       = []"
proof -
  have a1: "(0::nat) < 1" by simp
  have a2: "1 < length [header_row, printed_row, widget_row]" by simp
  have a3: "py_in ''printed'' (row_text ([header_row, printed_row, widget_row] ! 1))"
    by code_simp
  have a4: "\<not> py_in ''category total'' (row_text ([header_row, printed_row, widget_row] ! 1))"
    by code_simp
  note eq = printed_halts [OF a1 a2 a3 a4, of scenario_boundaries]
  have "extract_line_items (take 1 [header_row, printed_row, widget_row]) (Some 0)
          (Some scenario_boundaries) = []"
    by (simp add: extract_line_items_def)
  with eq a1 a2 a3 a4 show ?thesis by simp
qed

subsection \<open>The fields of an emitted item\<close>

text \<open>
  Claim C9, as stated: \<open>item_quantity\<close> is the coerced value of the quantity bucket, and
  is 1 exactly when that value is absent. It fails for a quantity of zero: the bucket
  coerces to 0, which is present, and the item has quantity 1.
\<close>

theorem zero_quantity_counterexample:
  "bucket_tokens scenario_boundaries zero_qty_row
     = ([''Widget''], [''0''], [''5.00''], [''10.00''])
   \<and> as_number (concat [''0'']) = Some 0
   \<and> extract_line_items [header_row, zero_qty_row] (Some 0) (Some scenario_boundaries)
       = [\<lparr>item_name = ''Widget'', item_quantity = 1, item_rate = 5, item_amount = 10\<rparr>]"
proof -
  have b: "bucket_tokens scenario_boundaries zero_qty_row
             = ([''Widget''], [''0''], [''5.00''], [''10.00''])"
    by code_simp
  have n: "as_number (concat [''0'']) = Some 0"
    by code_simp
  have e: "extract_line_items [header_row, zero_qty_row] (Some 0) (Some scenario_boundaries)
             = [\<lparr>item_name = ''Widget'', item_quantity = 1, item_rate = 5, item_amount = 10\<rparr>]"
    by code_simp
  from b n e show ?thesis by blast
qed

text \<open>
  Claim C9, amended: every emitted item comes from a row after the header whose amount
  bucket has a first coercible token, and \<open>item_amount\<close> is its value (a row without one
  gives no item); \<open>item_quantity\<close> is the coerced value of the quantity bucket, and 1
  exactly when that value is absent or zero; \<open>item_rate\<close> is the coerced value of the
  rate bucket, and \<open>item_amount\<close> exactly when that value is absent or zero.
\<close>

theorem emitted_item_fields:
  assumes "it \<in> set (extract_line_items rows (Some h) (Some b))"
  shows "\<exists>r\<in>set (drop (h + 1) rows). \<exists>desc_col qty_col rate_col amt_col.
           bucket_tokens b r = (desc_col, qty_col, rate_col, amt_col)
           \<and> first_amount amt_col = Some (item_amount it)
           \<and> item_quantity it = (case as_number (concat qty_col) of
                                   None \<Rightarrow> 1 | Some q \<Rightarrow> if q = 0 then 1 else q)
           \<and> item_rate it = (case as_number (concat rate_col) of
                               None \<Rightarrow> item_amount it
                             | Some v \<Rightarrow> if v = 0 then item_amount it else v)"
proof -
  from assms have "it \<in> set (extract_loop b (drop (h + 1) rows) [])"
    by (simp add: extract_line_items_def)
  from extract_loop_items [OF this]
  obtain r where r: "r \<in> set (drop (h + 1) rows)" and it: "row_item b r = Some it"
    by auto
  from row_item_fields [OF it] r show ?thesis by blast
qed

theorem emitted_item_fields_witness:
  "scenario_item \<in> set (extract_line_items scenario_rows (Some 0) (Some scenario_boundaries))
   \<and> (\<exists>r\<in>set (drop (0 + 1) scenario_rows). \<exists>desc_col qty_col rate_col amt_col.
         bucket_tokens scenario_boundaries r = (desc_col, qty_col, rate_col, amt_col)
         \<and> first_amount amt_col = Some (item_amount scenario_item)
         \<and> item_quantity scenario_item = (case as_number (concat qty_col) of
                                 None \<Rightarrow> 1 | Some q \<Rightarrow> if q = 0 then 1 else q)
         \<and> item_rate scenario_item = (case as_number (concat rate_col) of
                             None \<Rightarrow> item_amount scenario_item
                           | Some v \<Rightarrow> if v = 0 then item_amount scenario_item else v))"
proof -
  have m: "scenario_item \<in> set (extract_line_items scenario_rows (Some 0) (Some scenario_boundaries))"
    by (simp add: scenario_items)
  from emitted_item_fields [OF m] m show ?thesis by blast
qed

subsection \<open>Absent boundaries\<close>

text \<open>
  Claim C1, as stated: with \<open>desc_end\<close> absent every token goes to the description
  bucket, whatever its x-position. The default of the lookup is 99999, not infinity: a
  token at \<open>x = 99999\<close> goes to the amount bucket.
\<close>

theorem absent_boundary_counterexample:
  "Map.empty ''desc_end'' = (None :: rat option)
   \<and> bucket_tokens Map.empty [(99999, ''10.00'')] = ([], [], [], [''10.00''])"
  by (simp add: bucket_tokens_def get_boundary_def)

text \<open>
  Claim C1, amended: an absent boundary counts as 99999. For a row whose tokens all have
  \<open>x < 99999\<close>: with \<open>desc_end\<close> absent every token is in the description bucket; with
  \<open>qty_end\<close> absent every token not in the description bucket is in the quantity bucket,
  and the rate and amount buckets are empty; with \<open>rate_end\<close> absent every token not in
  the description or quantity bucket is in the rate bucket, and the amount bucket is
  empty.
\<close>

theorem absent_boundary_sentinel:
  assumes "\<forall>(x, tok)\<in>set r. x < 99999"
  shows "(b ''desc_end'' = None \<longrightarrow> bucket_tokens b r = (map snd r, [], [], []))
       \<and> (b ''qty_end'' = None \<longrightarrow>
            bucket_tokens b r =
              (map snd (filter (\<lambda>(x, tok). of_int x < get_boundary b ''desc_end'') r),
               map snd (filter (\<lambda>(x, tok). \<not> of_int x < get_boundary b ''desc_end'') r),
               [], []))
       \<and> (b ''rate_end'' = None \<longrightarrow>
            bucket_tokens b r =
              (map snd (filter (\<lambda>(x, tok). of_int x < get_boundary b ''desc_end'') r),
               map snd (filter (\<lambda>(x, tok). \<not> of_int x < get_boundary b ''desc_end''
                                           \<and> of_int x < get_boundary b ''qty_end'') r),
               map snd (filter (\<lambda>(x, tok). \<not> of_int x < get_boundary b ''desc_end''
                                           \<and> \<not> of_int x < get_boundary b ''qty_end'') r),
               []))"
proof -
  have lt: "x < 99999" if "(x, tok) \<in> set r" for x tok
    using assms that by blast
  have all: "filter (\<lambda>(x, tok). x < 99999) r = r"
    using lt by (auto simp: filter_id_conv)
  have none_l: "filter (\<lambda>(x, tok). \<not> x < 99999 \<and> P x) r = []" for P
    using lt by (auto simp: filter_empty_conv)
  have none_m: "filter (\<lambda>(x, tok). P x \<and> \<not> x < 99999 \<and> Q x) r = []" for P Q
    using lt by (auto simp: filter_empty_conv)
  have same: "filter (\<lambda>(x, tok). P x \<and> x < 99999) r = filter (\<lambda>(x, tok). P x) r" for P
    using lt by (auto intro: filter_cong)
  have c1: "bucket_tokens b r = (map snd r, [], [], [])" if "b ''desc_end'' = None"
  proof -
    from that have d: "get_boundary b ''desc_end'' = 99999" by (simp add: get_boundary_def)
    show ?thesis
      unfolding bucket_tokens_def bucket_loop_filter d
      by (simp add: all none_l)
  qed
  have c2: "bucket_tokens b r =
              (map snd (filter (\<lambda>(x, tok). of_int x < get_boundary b ''desc_end'') r),
               map snd (filter (\<lambda>(x, tok). \<not> of_int x < get_boundary b ''desc_end'') r),
               [], [])" if "b ''qty_end'' = None"
  proof -
    from that have q: "get_boundary b ''qty_end'' = 99999" by (simp add: get_boundary_def)
    show ?thesis
      unfolding bucket_tokens_def bucket_loop_filter q
      by (simp add: same none_m)
  qed
  have c3: "bucket_tokens b r =
              (map snd (filter (\<lambda>(x, tok). of_int x < get_boundary b ''desc_end'') r),
               map snd (filter (\<lambda>(x, tok). \<not> of_int x < get_boundary b ''desc_end''
                                           \<and> of_int x < get_boundary b ''qty_end'') r),
               map snd (filter (\<lambda>(x, tok). \<not> of_int x < get_boundary b ''desc_end''
                                           \<and> \<not> of_int x < get_boundary b ''qty_end'') r),
               [])" if "b ''rate_end'' = None"
  proof -
    from that have ra: "get_boundary b ''rate_end'' = 99999" by (simp add: get_boundary_def)
    have e1: "filter (\<lambda>(x, tok). \<not> of_int x < get_boundary b ''desc_end''
                \<and> \<not> of_int x < get_boundary b ''qty_end'' \<and> (of_int x :: rat) < 99999) r
              = filter (\<lambda>(x, tok). \<not> of_int x < get_boundary b ''desc_end''
                \<and> \<not> of_int x < get_boundary b ''qty_end'') r"
      using lt by (auto intro: filter_cong)
    have e2: "filter (\<lambda>(x, tok). \<not> of_int x < get_boundary b ''desc_end''
                \<and> \<not> of_int x < get_boundary b ''qty_end'' \<and> \<not> (of_int x :: rat) < 99999) r = []"
      using lt by (auto simp: filter_empty_conv)
    show ?thesis
      unfolding bucket_tokens_def bucket_loop_filter ra e1 e2
      by simp
  qed
  from c1 c2 c3 show ?thesis by blast
qed

theorem absent_boundary_sentinel_witness:
  "list_all (\<lambda>(x, tok). x < 99999) zero_qty_row
   \<and> (Map.empty :: boundaries) ''desc_end'' = None
   \<and> bucket_tokens Map.empty zero_qty_row = ([''Widget'', ''0'', ''5.00'', ''10.00''], [], [], [])
   \<and> [''desc_end'' \<mapsto> (105 :: rat)] ''qty_end'' = None
   \<and> bucket_tokens [''desc_end'' \<mapsto> 105] zero_qty_row
       = ([''Widget''], [''0'', ''5.00'', ''10.00''], [], [])
   \<and> [''desc_end'' \<mapsto> (105 :: rat), ''qty_end'' \<mapsto> 250] ''rate_end'' = None
   \<and> bucket_tokens [''desc_end'' \<mapsto> 105, ''qty_end'' \<mapsto> 250] zero_qty_row
       = ([''Widget''], [''0''], [''5.00'', ''10.00''], [])"
proof -
  have a: "\<forall>(x, tok)\<in>set zero_qty_row. x < 99999"
    by (simp add: zero_qty_row_def)
  have k1: "(Map.empty :: boundaries) ''desc_end'' = None" by simp
  have k2: "[''desc_end'' \<mapsto> (105 :: rat)] ''qty_end'' = None" by simp
  have k3: "[''desc_end'' \<mapsto> (105 :: rat), ''qty_end'' \<mapsto> 250] ''rate_end'' = None" by simp
  from absent_boundary_sentinel [OF a, of Map.empty] k1
  have r1: "bucket_tokens Map.empty zero_qty_row = ([''Widget'', ''0'', ''5.00'', ''10.00''], [], [], [])"
    by (simp add: zero_qty_row_def)
  from absent_boundary_sentinel [OF a, of "[''desc_end'' \<mapsto> 105]"] k2
  have r2: "bucket_tokens [''desc_end'' \<mapsto> 105] zero_qty_row
              = ([''Widget''], [''0'', ''5.00'', ''10.00''], [], [])"
    by (simp add: zero_qty_row_def get_boundary_def)
  from absent_boundary_sentinel [OF a, of "[''desc_end'' \<mapsto> 105, ''qty_end'' \<mapsto> 250]"] k3
  have r3: "bucket_tokens [''desc_end'' \<mapsto> 105, ''qty_end'' \<mapsto> 250] zero_qty_row
              = ([''Widget''], [''0''], [''5.00'', ''10.00''], [])"
    by (simp add: zero_qty_row_def get_boundary_def)
  from a have "list_all (\<lambda>(x, tok). x < 99999) zero_qty_row"
    by (simp add: list_all_iff)
  with k1 k2 k3 r1 r2 r3 show ?thesis by blast
qed

subsection \<open>The two outputs of the header locator\<close>

text \<open>
  Claim C10. \<^verbatim>\<open>find_table_header\<close> returns its two outputs together: the index is
  \<^verbatim>\<open>None\<close> exactly when the boundaries are. When the first row that passes the header
  test has fewer than two classified tokens, the boundaries are the empty dictionary
  (not \<^verbatim>\<open>None\<close>), and \<^verbatim>\<open>extract_line_items\<close> runs its loop over the rows after the header
  instead of returning the empty list at once.
\<close>

theorem header_outputs_coupled:
  "(fst (find_table_header rows) = None \<longleftrightarrow> snd (find_table_header rows) = None)
   \<and> (i < length rows \<and> is_header (rows ! i) \<and> (\<forall>j<i. \<not> is_header (rows ! j))
        \<and> length (filter classified (rows ! i)) < 2
      \<longrightarrow> find_table_header rows = (Some i, Some Map.empty)
          \<and> extract_line_items rows (fst (find_table_header rows)) (snd (find_table_header rows))
              = extract_loop Map.empty (drop (i + 1) rows) [])"
proof -
  have "find_table_header rows = (Some i, Some Map.empty)
        \<and> extract_line_items rows (fst (find_table_header rows)) (snd (find_table_header rows))
            = extract_loop Map.empty (drop (i + 1) rows) []"
    if a: "i < length rows" "is_header (rows ! i)" "\<forall>j<i. \<not> is_header (rows ! j)"
      and few: "length (filter classified (rows ! i)) < 2"
  proof -
    from find_header_first [OF a, of 0]
    have f: "find_header_from 0 rows = Some (i, rows ! i)" by simp
    have "filled (foldl classify \<lparr>desc = None, qty = None, rate = None, amt = None\<rparr> (rows ! i))
            \<le> filled \<lparr>desc = None, qty = None, rate = None, amt = None\<rparr>
               + length (filter classified (rows ! i))"
      by (rule foldl_classify_filled)
    with few have
      "filled (foldl classify \<lparr>desc = None, qty = None, rate = None, amt = None\<rparr> (rows ! i)) \<le> 1"
      by (simp add: filled_def List.map_filter_def)
    then have "infer_boundaries
                 (foldl classify \<lparr>desc = None, qty = None, rate = None, amt = None\<rparr> (rows ! i))
               = Map.empty"
      by (rule infer_boundaries_empty)
    with f have h: "find_table_header rows = (Some i, Some Map.empty)"
      by (simp add: find_table_header_def)
    then show ?thesis
      by (simp add: extract_line_items_def)
  qed
  with header_coupled [of rows] show ?thesis by blast
qed

theorem header_outputs_coupled_witness:
  "(1::nat) < length sparse_rows \<and> is_header (sparse_rows ! 1) \<and> \<not> is_header (sparse_rows ! 0)
   \<and> length (filter classified (sparse_rows ! 1)) < 2
   \<and> find_table_header sparse_rows = (Some 1, Some Map.empty)
   \<and> extract_line_items sparse_rows (fst (find_table_header sparse_rows))
        (snd (find_table_header sparse_rows))
       = extract_loop Map.empty (drop (1 + 1) sparse_rows) []
   \<and> extract_loop Map.empty (drop (1 + 1) sparse_rows) []
       = [\<lparr>item_name = ''Widget'', item_quantity = 1, item_rate = 10, item_amount = 10\<rparr>]"
proof -
  have a1: "(1::nat) < length sparse_rows" by (simp add: sparse_rows_def)
  have a2: "is_header (sparse_rows ! 1)" by code_simp
  have a3: "\<not> is_header (sparse_rows ! 0)" by code_simp
  then have a3': "\<forall>j<1. \<not> is_header (sparse_rows ! j)" by simp
  have a4: "length (filter classified (sparse_rows ! 1)) < 2" by code_simp
  have e: "extract_loop Map.empty (drop (1 + 1) sparse_rows) []
             = [\<lparr>item_name = ''Widget'', item_quantity = 1, item_rate = 10, item_amount = 10\<rparr>]"
    by code_simp
  from header_outputs_coupled [of sparse_rows 1] a1 a2 a3' a4
  have "find_table_header sparse_rows = (Some 1, Some Map.empty)
        \<and> extract_line_items sparse_rows (fst (find_table_header sparse_rows))
             (snd (find_table_header sparse_rows))
            = extract_loop Map.empty (drop (1 + 1) sparse_rows) []"
    by blast
  with a1 a2 a3 a4 e show ?thesis by blast
qed

subsection \<open>The y-coordinates within a row\<close>

text \<open>
  Claim C3, as stated: any two tokens of a row differ in y by at most the threshold. It
  fails when tokens follow each other closely: each token is compared with the token
  accepted just before it, not with the whole row. With threshold 12, tokens at
  \<open>y = 0, 10, 20\<close> form one row, and 0 and 20 are 20 apart.
\<close>

theorem row_y_close_counterexample:
  "group_tokens_by_line chain_page 12 = [[(10, ''a''), (50, ''b''), (90, ''c'')]]
   \<and> group_tokens_by_line_y chain_page 12 = [[(10, 0, ''a''), (50, 10, ''b''), (90, 20, ''c'')]]
   \<and> \<not> list_all (mutually_close 12) (group_tokens_by_line_y chain_page 12)"
proof -
  have a: "group_tokens_by_line chain_page 12 = [[(10, ''a''), (50, ''b''), (90, ''c'')]]"
    by code_simp
  have b: "group_tokens_by_line_y chain_page 12
             = [[(10, 0, ''a''), (50, 10, ''b''), (90, 20, ''c'')]]"
    by code_simp
  have c: "\<not> mutually_close 12 [(10, 0, ''a''), (50, 10, ''b''), (90, 20, ''c'')]"
    by (simp add: mutually_close_def y_of_def)
  from a b c show ?thesis by simp
qed

text \<open>
  Claim C3, amended: for every token sequence and every threshold \<open>T\<close>, any two tokens
  of a row of \<open>n\<close> tokens differ in y by at most \<open>(n - 1) * T\<close> (each token is within
  \<open>T\<close> of the token accepted just before it). The rows with their y-coordinates are the
  rows of \<^verbatim>\<open>group_tokens_by_line\<close> once the y-coordinates are dropped.
\<close>

theorem row_y_spread:
  "map (map drop_y) (group_tokens_by_line_y d T) = group_tokens_by_line d T
   \<and> (\<forall>r\<in>set (group_tokens_by_line_y d T). \<forall>t\<in>set r. \<forall>t'\<in>set r.
         \<bar>y_of t - y_of t'\<bar> \<le> (int (length r) - 1) * T)"
  using group_drop_y [of d T] group_y_spread [of _ d T]
  by (simp add: spread_ok_def)

theorem row_y_spread_witness:
  "[(10 :: int, 0 :: int, ''a''), (50, 10, ''b''), (90, 20, ''c'')] \<in> set (group_tokens_by_line_y chain_page 12)
   \<and> (10 :: int, 0 :: int, ''a'') \<in> set [(10 :: int, 0 :: int, ''a''), (50, 10, ''b''), (90, 20, ''c'')]
   \<and> (90, 20, ''c'') \<in> set [(10 :: int, 0 :: int, ''a''), (50, 10, ''b''), (90, 20, ''c'')]
   \<and> \<bar>y_of (10 :: int, 0 :: int, ''a'') - y_of (90, 20, ''c'')\<bar>
       \<le> (int (length [(10 :: int, 0 :: int, ''a''), (50, 10, ''b''), (90, 20, ''c'')]) - 1) * 12
   \<and> \<bar>y_of (10 :: int, 0 :: int, ''a'') - y_of (90, 20, ''c'')\<bar> = 20"
proof -
  have b: "group_tokens_by_line_y chain_page 12
             = [[(10 :: int, 0 :: int, ''a''), (50, 10, ''b''), (90, 20, ''c'')]]"
    by code_simp
  then have m: "[(10 :: int, 0 :: int, ''a''), (50, 10, ''b''), (90, 20, ''c'')]
                  \<in> set (group_tokens_by_line_y chain_page 12)"
    by simp
  have m1: "(10 :: int, 0 :: int, ''a'') \<in> set [(10 :: int, 0 :: int, ''a''), (50, 10, ''b''), (90, 20, ''c'')]"
    and m2: "(90, 20, ''c'') \<in> set [(10 :: int, 0 :: int, ''a''), (50, 10, ''b''), (90, 20, ''c'')]"
    by simp_all
  from row_y_spread [of chain_page 12] m m1 m2
  have "\<bar>y_of (10 :: int, 0 :: int, ''a'') - y_of (90, 20, ''c'')\<bar>
          \<le> (int (length [(10 :: int, 0 :: int, ''a''), (50, 10, ''b''), (90, 20, ''c'')]) - 1) * 12"
    by blast
  moreover have "\<bar>y_of (10 :: int, 0 :: int, ''a'') - y_of (90, 20, ''c'')\<bar> = 20"
    by (simp add: y_of_def)
  ultimately show ?thesis using m m1 m2 by blast
qed

end
